theory Spec2Isabelle
  imports Main
begin

section \<open>JavaScript values\<close>

text \<open>
  The tools receive their arguments as untyped objects (\<^verbatim>\<open>args: any\<close>) and the client
  returns decoded JSON bodies (\<^verbatim>\<open>response.data\<close>), so values are modelled as a datatype
  of JSON-like JavaScript values. An object is the list of its own properties in
  enumeration order, which for the non-index keys used here is insertion order.
  Numbers are restricted to integers. A string is a sequence of UTF-16 code units
  below 256, one \<open>char\<close> each: the characters of Latin-1, ASCII included.
\<close>

datatype jsval =
    JUndefined
  | JNull
  | JBool bool
  | JNum int
  | JStr string
  | JArr "jsval list"
  | JObj "(string \<times> jsval) list"

text \<open>Truthiness, as tested by \<^verbatim>\<open>if (x)\<close>, \<^verbatim>\<open>!x\<close>, \<^verbatim>\<open>x || y\<close> and \<^verbatim>\<open>x && y\<close>.\<close>

fun truthy :: "jsval \<Rightarrow> bool" where
  "truthy JUndefined = False"
| "truthy JNull = False"
| "truthy (JBool b) = b"
| "truthy (JNum n) = (n \<noteq> 0)"
| "truthy (JStr s) = (s \<noteq> [])"
| "truthy (JArr xs) = True"
| "truthy (JObj kvs) = True"

text \<open>\<^verbatim>\<open>a || b\<close> on values.\<close>

definition js_or :: "jsval \<Rightarrow> jsval \<Rightarrow> jsval" where
  "js_or a b = (if truthy a then a else b)"

subsection \<open>Thrown values\<close>

text \<open>The normalized error of the client (\<^verbatim>\<open>interface ImmichApiError\<close>).\<close>

record ImmichApiError =
  message :: jsval
  statusCode :: int
  error :: jsval

text \<open>
  What a \<^verbatim>\<open>throw\<close> or a rejected promise carries: a plain \<^verbatim>\<open>Error\<close> with its message,
  a runtime \<^verbatim>\<open>TypeError\<close> with its message, the client's normalized error object, or
  the error of a failed schema \<^verbatim>\<open>parse\<close>.
\<close>

datatype thrown =
    Error string
  | TypeError string
  | ApiError ImmichApiError
  | ZodError


subsection \<open>Property access\<close>

text \<open>
  \<^verbatim>\<open>v.k\<close> for a data key \<open>k\<close>: reading a property of \<^verbatim>\<open>undefined\<close> or \<^verbatim>\<open>null\<close> throws
  a TypeError, an object yields the property or \<^verbatim>\<open>undefined\<close>, and every other
  value has no such data property.
\<close>

fun get_prop :: "jsval \<Rightarrow> string \<Rightarrow> thrown + jsval" where
  "get_prop JUndefined k =
     Inl (TypeError (''Cannot read properties of undefined (reading '' @ [CHR 0x27] @ k @ [CHR 0x27] @ '')''))"
| "get_prop JNull k =
     Inl (TypeError (''Cannot read properties of null (reading '' @ [CHR 0x27] @ k @ [CHR 0x27] @ '')''))"
| "get_prop (JObj kvs) k = Inr (case map_of kvs k of None \<Rightarrow> JUndefined | Some v \<Rightarrow> v)"
| "get_prop v k = Inr JUndefined"

text \<open>\<^verbatim>\<open>v?.k\<close>: optional chaining never throws.\<close>

fun opt_prop :: "jsval \<Rightarrow> string \<Rightarrow> jsval" where
  "opt_prop (JObj kvs) k = (case map_of kvs k of None \<Rightarrow> JUndefined | Some v \<Rightarrow> v)"
| "opt_prop v k = JUndefined"

subsection \<open>Conversion to strings\<close>

fun show_nat :: "nat \<Rightarrow> string" where
  "show_nat n =
     (if n < 10 then [''0123456789'' ! n]
      else show_nat (n div 10) @ [''0123456789'' ! (n mod 10)])"

declare show_nat.simps [simp del]

definition show_int :: "int \<Rightarrow> string" where
  "show_int i = (if i < 0 then CHR ''-'' # show_nat (nat (- i)) else show_nat (nat i))"

text \<open>\<^verbatim>\<open>Array.prototype.join\<close> on already converted elements.\<close>

fun join :: "string \<Rightarrow> string list \<Rightarrow> string" where
  "join sep [] = []"
| "join sep [x] = x"
| "join sep (x # y # ys) = x @ sep @ join sep (y # ys)"

text \<open>\<^verbatim>\<open>String(v)\<close>, the conversion a template literal \<^verbatim>\<open>`${v}`\<close> applies.\<close>

fun to_string :: "jsval \<Rightarrow> string"
  and to_string_elems :: "jsval list \<Rightarrow> string list" where
  "to_string JUndefined = ''undefined''"
| "to_string JNull = ''null''"
| "to_string (JBool b) = (if b then ''true'' else ''false'')"
| "to_string (JNum n) = show_int n"
| "to_string (JStr s) = s"
| "to_string (JArr xs) = join '','' (to_string_elems xs)"
| "to_string (JObj kvs) = ''[object Object]''"
| "to_string_elems [] = []"
| "to_string_elems (x # xs) =
     (if x = JUndefined \<or> x = JNull then [] else to_string x) # to_string_elems xs"

text \<open>
  The lower-case form of a string (\<^verbatim>\<open>String.prototype.toLowerCase\<close>). Among the code
  units below 256 the upper-case letters are \<^verbatim>\<open>A\<close> to \<^verbatim>\<open>Z\<close> (65 to 90) and the accented
  capitals U+00C0 to U+00DE without the multiplication sign U+00D7 (192 to 214 and
  216 to 222); each has its lower-case form 32 above it. Every other code unit below
  256 is left as it is.
\<close>

definition lower_char :: "char \<Rightarrow> char" where
  "lower_char c =
     (if ((65::nat) \<le> of_char c \<and> of_char c \<le> (90::nat)) \<or>
         ((192::nat) \<le> of_char c \<and> of_char c \<le> (214::nat)) \<or>
         ((216::nat) \<le> of_char c \<and> of_char c \<le> (222::nat))
      then char_of (of_char c + (32::nat)) else c)"

definition toLowerCase :: "string \<Rightarrow> string" where
  "toLowerCase s = map lower_char s"


subsection \<open>\<^verbatim>\<open>JSON.stringify\<close>\<close>

definition hex_digit :: "nat \<Rightarrow> char" where
  "hex_digit n = ''0123456789abcdef'' ! (n mod 16)"

definition escape_char :: "char \<Rightarrow> string" where
  "escape_char c =
     (if c = CHR 0x22 then [CHR 0x5C, CHR 0x22]
      else if c = CHR 0x5C then [CHR 0x5C, CHR 0x5C]
      else if c = CHR 0x08 then [CHR 0x5C, CHR ''b'']
      else if c = CHR 0x0C then [CHR 0x5C, CHR ''f'']
      else if c = CHR 0x0A then [CHR 0x5C, CHR ''n'']
      else if c = CHR 0x0D then [CHR 0x5C, CHR ''r'']
      else if c = CHR 0x09 then [CHR 0x5C, CHR ''t'']
      else if of_char c < (32::nat)
        then [CHR 0x5C, CHR ''u'', CHR ''0'', CHR ''0'',
              hex_digit (of_char c div 16), hex_digit (of_char c)]
      else [c])"

definition quote :: "string \<Rightarrow> string" where
  "quote s = CHR 0x22 # concat (map escape_char s) @ [CHR 0x22]"

text \<open>
  \<^verbatim>\<open>JSON.stringify(v)\<close>: \<open>None\<close> stands for the result \<^verbatim>\<open>undefined\<close>. Properties are
  written in enumeration order; a property whose value is \<^verbatim>\<open>undefined\<close> is left out,
  and an \<^verbatim>\<open>undefined\<close> array element is written \<^verbatim>\<open>null\<close>.
\<close>

fun JSON_stringify :: "jsval \<Rightarrow> string option"
  and stringify_elems :: "jsval list \<Rightarrow> string list"
  and stringify_props :: "(string \<times> jsval) list \<Rightarrow> string list" where
  "JSON_stringify JUndefined = None"
| "JSON_stringify JNull = Some ''null''"
| "JSON_stringify (JBool b) = Some (if b then ''true'' else ''false'')"
| "JSON_stringify (JNum n) = Some (show_int n)"
| "JSON_stringify (JStr s) = Some (quote s)"
| "JSON_stringify (JArr xs) = Some (''['' @ join '','' (stringify_elems xs) @ '']'')"
| "JSON_stringify (JObj kvs) = Some (''{'' @ join '','' (stringify_props kvs) @ ''}'')"
| "stringify_elems [] = []"
| "stringify_elems (x # xs) =
     (case JSON_stringify x of None \<Rightarrow> ''null'' | Some s \<Rightarrow> s) # stringify_elems xs"
| "stringify_props [] = []"
| "stringify_props ((k, v) # kvs) =
     (case JSON_stringify v of
        None \<Rightarrow> stringify_props kvs
      | Some s \<Rightarrow> (quote k @ '':'' @ s) # stringify_props kvs)"

text \<open>A template literal converts the \<^verbatim>\<open>undefined\<close> result to the text \<^verbatim>\<open>undefined\<close>.\<close>

definition template_of :: "string option \<Rightarrow> string" where
  "template_of r = (case r of None \<Rightarrow> ''undefined'' | Some s \<Rightarrow> s)"

section \<open>The API client\<close>

subsection \<open>Requests, replies and the environment\<close>

text \<open>
  A multipart form field is a file stream (absolute path and file name) or a text
  value; a request carries a JSON payload or such a form. The static headers (API key,
  content type) are the same on every request and are left out.
\<close>

datatype form_value = FileStream string string | Field string

datatype payload = Json jsval | Multipart "(string \<times> form_value) list"

record request = http_method :: string
  url :: string
  params :: jsval
  body :: payload

text \<open>
  What the HTTP stack observes for one request: a response with its status and decoded
  body, or no response at all (network fault, or the 30 second timeout of the client),
  with the message the HTTP library gives the fault.
\<close>

datatype reply = Reply int jsval | Fault string

text \<open>\<^verbatim>\<open>fs.statSync\<close>: creation and modification time, as ISO strings.\<close>

record stats =
  birthtime :: string
  mtime :: string

text \<open>
  Everything outside the process. \<open>cacheTtl\<close> is \<^verbatim>\<open>config.CACHE_TTL * 1000\<close>. The remote
  service answers a request depending on the requests it has received before; a call
  takes \<open>latency\<close> milliseconds. \<open>resolve\<close> and \<open>basename\<close> are the platform's
  \<^verbatim>\<open>path.resolve\<close> and \<^verbatim>\<open>path.basename\<close>; \<open>stat\<close> is the file system, \<open>None\<close> for a path
  that does not exist.
\<close>

record env =
  cacheTtl :: int
  remote :: "request list \<Rightarrow> request \<Rightarrow> reply"
  latency :: "request list \<Rightarrow> request \<Rightarrow> int"
  resolve :: "string \<Rightarrow> string"
  basename :: "string \<Rightarrow> string"
  stat :: "string \<Rightarrow> stats option"

record cache_entry =
  data :: jsval
  timestamp :: int

text \<open>
  The state of the process: the clock (\<^verbatim>\<open>Date.now()\<close>), the requests sent so far, oldest
  first, and the client's cache.
\<close>

record world =
  now :: int
  calls :: "request list"
  cache :: "string \<rightharpoonup> cache_entry"

subsection \<open>The response interceptor\<close>

text \<open>The error of the HTTP library: its message and the response, when there was one.\<close>

datatype axios_error = AxiosError string "(int \<times> jsval) option"

fun response_error_interceptor :: "axios_error \<Rightarrow> ImmichApiError" where
  "response_error_interceptor (AxiosError msg resp) =
     \<lparr> message =
         js_or (js_or (case resp of None \<Rightarrow> JUndefined | Some (st, d) \<Rightarrow> opt_prop d ''message'')
                      (JStr msg))
               (JStr ''Unknown Immich API error''),
       statusCode = (case resp of None \<Rightarrow> 500 | Some (st, d) \<Rightarrow> if st \<noteq> 0 then st else 500),
       error = (case resp of None \<Rightarrow> JUndefined | Some (st, d) \<Rightarrow> opt_prop d ''error'') \<rparr>"

text \<open>
  One call of the HTTP instance (\<^verbatim>\<open>this.client.get/post/...\<close>): the request is sent once;
  a status outside 200..299 and a fault are rejected through the interceptor.
\<close>

definition client_request :: "env \<Rightarrow> request \<Rightarrow> world \<Rightarrow> (thrown + jsval) \<times> world" where
  "client_request env req w =
     (let w' = w\<lparr>now := now w + latency env (calls w) req, calls := calls w @ [req]\<rparr> in
      case remote env (calls w) req of
        Reply st d \<Rightarrow>
          if 200 \<le> st \<and> st < 300 then (Inr d, w')
          else (Inl (ApiError (response_error_interceptor
                  (AxiosError (''Request failed with status code '' @ show_int st) (Some (st, d))))), w')
      | Fault msg \<Rightarrow> (Inl (ApiError (response_error_interceptor (AxiosError msg None))), w'))"

subsection \<open>The cache\<close>

definition isCacheValid :: "env \<Rightarrow> world \<Rightarrow> int \<Rightarrow> bool" where
  "isCacheValid env w ts = (now w - ts < cacheTtl env)"

text \<open>\<^verbatim>\<open>getFromCache\<close> returns \<^verbatim>\<open>null\<close> for an absent or expired entry and deletes the latter.\<close>

definition getFromCache :: "env \<Rightarrow> string \<Rightarrow> world \<Rightarrow> jsval \<times> world" where
  "getFromCache env key w =
     (case cache w key of
        None \<Rightarrow> (JNull, w)
      | Some cached \<Rightarrow>
          if isCacheValid env w (timestamp cached) then (data cached, w)
          else (JNull, w\<lparr>cache := (cache w)(key := None)\<rparr>))"

definition setCache :: "string \<Rightarrow> jsval \<Rightarrow> world \<Rightarrow> world" where
  "setCache key d w = w\<lparr>cache := (cache w)(key \<mapsto> \<lparr>data = d, timestamp = now w\<rparr>)\<rparr>"

definition clearCache :: "world \<Rightarrow> world" where
  "clearCache w = w\<lparr>cache := Map.empty\<rparr>"

subsection \<open>The verbs\<close>

definition cacheKey :: "string \<Rightarrow> jsval \<Rightarrow> string" where
  "cacheKey endpoint ps =
     ''GET:'' @ endpoint @ '':'' @ template_of (JSON_stringify (js_or ps (JObj [])))"

text \<open>
  The properties of a parameter object that \<^verbatim>\<open>JSON.stringify\<close> writes: those whose value
  is not \<^verbatim>\<open>undefined\<close>.
\<close>

definition defined_props :: "(string \<times> jsval) list \<Rightarrow> (string \<times> jsval) list" where
  "defined_props kvs = filter (\<lambda>kv. snd kv \<noteq> JUndefined) kvs"

definition get :: "env \<Rightarrow> string \<Rightarrow> jsval \<Rightarrow> bool \<Rightarrow> world \<Rightarrow> (thrown + jsval) \<times> world" where
  "get env endpoint ps useCache w =
     (let (cached, w1) = (if useCache then getFromCache env (cacheKey endpoint ps) w else (JNull, w)) in
      if useCache \<and> truthy cached then (Inr cached, w1)
      else
        case client_request env \<lparr>http_method = ''GET'', url = endpoint, params = ps, body = Json JUndefined\<rparr> w1 of
          (Inl e, w2) \<Rightarrow> (Inl e, w2)
        | (Inr d, w2) \<Rightarrow> (Inr d, if useCache then setCache (cacheKey endpoint ps) d w2 else w2))"



definition patch :: "env \<Rightarrow> string \<Rightarrow> jsval \<Rightarrow> world \<Rightarrow> (thrown + jsval) \<times> world" where
  "patch env endpoint d w =
     client_request env \<lparr>http_method = ''PATCH'', url = endpoint, params = JUndefined, body = Json d\<rparr> w"

definition delete :: "env \<Rightarrow> string \<Rightarrow> jsval \<Rightarrow> world \<Rightarrow> (thrown + jsval) \<times> world" where
  "delete env endpoint d w =
     client_request env \<lparr>http_method = ''DELETE'', url = endpoint, params = JUndefined, body = Json d\<rparr> w"

subsection \<open>Uploading a file\<close>




subsection \<open>Validating the connection\<close>

definition endpoints :: "string list" where
  "endpoints =
     [''/api/users/me'', ''/api/server/info'', ''/api/server-info'',
      ''/api/server/version'', ''/api/server-info/version'']"

text \<open>The \<^verbatim>\<open>for\<close> loop over the endpoints: the first that answers ends the search.\<close>

fun probe :: "env \<Rightarrow> string list \<Rightarrow> world \<Rightarrow> bool \<times> world" where
  "probe env [] w = (False, w)"
| "probe env (e # es) w =
     (case get env e JUndefined False w of
        (Inr d, w') \<Rightarrow> (True, w')
      | (Inl err, w') \<Rightarrow> probe env es w')"

definition validateConnection :: "env \<Rightarrow> world \<Rightarrow> bool \<times> world" where
  "validateConnection env w =
     (case probe env endpoints w of
        (True, w') \<Rightarrow> (True, w')
      | (False, w') \<Rightarrow>
          (case client_request env
                  \<lparr>http_method = ''GET'', url = ''/api'', params = JUndefined, body = Json JUndefined\<rparr> w' of
             (Inr d, w'') \<Rightarrow> (True, w'')
           | (Inl err, w'') \<Rightarrow> (False, w'')))"

section \<open>The assets tool\<close>

subsection \<open>Reading without validation\<close>

text \<open>
  \<^verbatim>\<open>getAssetStatistics\<close> and \<^verbatim>\<open>getRandomAssets\<close> read the raw arguments directly. A property
  is copied into \<^verbatim>\<open>params\<close> when it is not \<^verbatim>\<open>undefined\<close>.
\<close>

definition set_if_defined :: "string \<Rightarrow> jsval \<Rightarrow> (string \<times> jsval) list \<Rightarrow> (string \<times> jsval) list" where
  "set_if_defined k v ps = (if v \<noteq> JUndefined then ps @ [(k, v)] else ps)"

definition getAssetStatistics :: "env \<Rightarrow> jsval \<Rightarrow> world \<Rightarrow> (thrown + jsval) \<times> world" where
  "getAssetStatistics env args w =
     (case get_prop args ''isArchived'' of
        Inl e \<Rightarrow> (Inl e, w)
      | Inr isArchived \<Rightarrow>
          (case get_prop args ''isFavorite'' of
             Inl e \<Rightarrow> (Inl e, w)
           | Inr isFavorite \<Rightarrow>
               get env ''/api/assets/statistics''
                 (JObj (set_if_defined ''isFavorite'' isFavorite
                         (set_if_defined ''isArchived'' isArchived [])))
                 True w))"

definition getRandomAssets :: "env \<Rightarrow> jsval \<Rightarrow> world \<Rightarrow> (thrown + jsval) \<times> world" where
  "getRandomAssets env args w =
     (case get_prop args ''count'' of
        Inl e \<Rightarrow> (Inl e, w)
      | Inr c \<Rightarrow> get env ''/api/assets/random'' (JObj [(''count'', js_or c (JNum 1))]) True w)"

subsection \<open>The published input shapes\<close>

text \<open>
  The entries of \<^verbatim>\<open>getTools()\<close> give each tool's input shape as data: per property its
  type (for a number, its minimum and maximum), and the required properties.
\<close>

datatype prop_schema =
    NumberProp "int option" "int option"
  | StringProp
  | BooleanProp

record tool =
  name :: string
  properties :: "(string \<times> prop_schema) list"
  required :: "string list"

definition assets_get_statistics :: tool where
  "assets_get_statistics =
     \<lparr>name = ''assets_get_statistics'',
      properties = [(''isArchived'', BooleanProp), (''isFavorite'', BooleanProp)],
      required = []\<rparr>"

definition assets_get_random :: tool where
  "assets_get_random =
     \<lparr>name = ''assets_get_random'',
      properties = [(''count'', NumberProp (Some 1) (Some 100))],
      required = []\<rparr>"

text \<open>What it means for a value to have a declared property shape, and for an argument
  object to have the declared input shape.\<close>

fun conforms_prop :: "prop_schema \<Rightarrow> jsval \<Rightarrow> bool" where
  "conforms_prop (NumberProp lo hi) (JNum n) =
     ((case lo of None \<Rightarrow> True | Some l \<Rightarrow> l \<le> n) \<and> (case hi of None \<Rightarrow> True | Some h \<Rightarrow> n \<le> h))"
| "conforms_prop StringProp (JStr s) = True"
| "conforms_prop BooleanProp (JBool b) = True"
| "conforms_prop sch v = False"

definition conforms :: "tool \<Rightarrow> jsval \<Rightarrow> bool" where
  "conforms t args =
     (case args of
        JObj kvs \<Rightarrow>
          list_all (\<lambda>k. map_of kvs k \<noteq> None) (required t) \<and>
          list_all (\<lambda>(k, sch). case map_of kvs k of None \<Rightarrow> True | Some v \<Rightarrow> conforms_prop sch v)
            (properties t)
      | _ \<Rightarrow> False)"

subsection \<open>Uploading a batch\<close>

record uploaded_entry =
  filePath :: jsval
  assetId :: jsval
  status :: jsval

record failed_entry =
  failed_filePath :: jsval
  failed_error :: jsval

record upload_result =
  success :: bool
  uploaded :: "uploaded_entry list"
  failed :: "failed_entry list"
  albumId :: jsval











section \<open>The albums tool\<close>

text \<open>
  \<^verbatim>\<open>CheckAssetsInAlbumInputSchema.parse\<close>: an object whose \<^verbatim>\<open>albumId\<close> is a non-empty string
  and whose \<^verbatim>\<open>assetIds\<close> is a non-empty array of strings.
\<close>

fun strings_of :: "jsval list \<Rightarrow> string list option" where
  "strings_of [] = Some []"
| "strings_of (JStr s # rest) = (case strings_of rest of None \<Rightarrow> None | Some ss \<Rightarrow> Some (s # ss))"
| "strings_of (v # rest) = None"

definition CheckAssetsInAlbumInputSchema_parse :: "jsval \<Rightarrow> thrown + (string \<times> string list)" where
  "CheckAssetsInAlbumInputSchema_parse args =
     (case args of
        JObj kvs \<Rightarrow>
          (case (opt_prop args ''albumId'', opt_prop args ''assetIds'') of
             (JStr a, JArr xs) \<Rightarrow>
               (case strings_of xs of
                  None \<Rightarrow> Inl ZodError
                | Some ids \<Rightarrow> if length a \<ge> 1 \<and> length ids \<ge> 1 then Inr (a, ids) else Inl ZodError)
           | _ \<Rightarrow> Inl ZodError)
      | _ \<Rightarrow> Inl ZodError)"

text \<open>\<^verbatim>\<open>album.assets?.map(a => a.id) || []\<close>, the elements of the set of album asset ids.\<close>

fun map_ids :: "jsval list \<Rightarrow> thrown + jsval list" where
  "map_ids [] = Inr []"
| "map_ids (a # rest) =
     (case get_prop a ''id'' of
        Inl e \<Rightarrow> Inl e
      | Inr i \<Rightarrow> (case map_ids rest of Inl e \<Rightarrow> Inl e | Inr is \<Rightarrow> Inr (i # is)))"

definition albumAssetIds :: "jsval \<Rightarrow> thrown + jsval list" where
  "albumAssetIds album =
     (case get_prop album ''assets'' of
        Inl e \<Rightarrow> Inl e
      | Inr assets \<Rightarrow>
          (case assets of
             JUndefined \<Rightarrow> Inr []
           | JNull \<Rightarrow> Inr []
           | JArr xs \<Rightarrow> map_ids xs
           | _ \<Rightarrow> Inl (TypeError ''album.assets?.map is not a function'')))"

text \<open>
  The result of \<^verbatim>\<open>checkAssetsInAlbum\<close>; \<^verbatim>\<open>results\<close> is a plain object used as a map from
  asset ids to booleans, modelled by its own properties.
\<close>

record check_result =
  checked_albumId :: string
  results :: "string \<rightharpoonup> bool"
  memberCount :: nat
  nonMemberCount :: nat

text \<open>
  \<^verbatim>\<open>results[assetId] = isMember\<close> on a plain object. The key \<^verbatim>\<open>__proto__\<close> is the
  accessor inherited from \<^verbatim>\<open>Object.prototype\<close>: assigning a boolean to it calls the
  setter, which ignores a value that is neither an object nor \<^verbatim>\<open>null\<close>, and no own
  property is stored. Every other key is stored, replacing an earlier value.
\<close>

definition set_result :: "(string \<rightharpoonup> bool) \<Rightarrow> string \<Rightarrow> bool \<Rightarrow> (string \<rightharpoonup> bool)" where
  "set_result res k b = (if k = ''__proto__'' then res else res(k \<mapsto> b))"

fun check_loop ::
    "jsval list \<Rightarrow> string list \<Rightarrow> (string \<rightharpoonup> bool) \<Rightarrow> nat \<Rightarrow> nat \<Rightarrow> (string \<rightharpoonup> bool) \<times> nat \<times> nat" where
  "check_loop ids [] res m n = (res, m, n)"
| "check_loop ids (q # rest) res m n =
     (let isMember = (JStr q \<in> set ids) in
      if isMember then check_loop ids rest (set_result res q isMember) (m + 1) n
      else check_loop ids rest (set_result res q isMember) m (n + 1))"

definition checkAssetsInAlbum :: "env \<Rightarrow> jsval \<Rightarrow> world \<Rightarrow> (thrown + check_result) \<times> world" where
  "checkAssetsInAlbum env args w =
     (case CheckAssetsInAlbumInputSchema_parse args of
        Inl e \<Rightarrow> (Inl e, w)
      | Inr (aid, assetIds) \<Rightarrow>
          (case get env (''/api/albums/'' @ aid) JUndefined True w of
             (Inl e, w1) \<Rightarrow> (Inl e, w1)
           | (Inr album, w1) \<Rightarrow>
               (case albumAssetIds album of
                  Inl e \<Rightarrow> (Inl e, w1)
                | Inr ids \<Rightarrow>
                    (case check_loop ids assetIds Map.empty 0 0 of
                       (res, m, n) \<Rightarrow>
                         (Inr \<lparr>checked_albumId = aid, results = res,
                                memberCount = m, nonMemberCount = n\<rparr>, w1)))))"

section \<open>Observing a run\<close>






text \<open>A request is answered without error when the reply has a status in 200..299.\<close>

definition answers :: "env \<Rightarrow> request list \<Rightarrow> request \<Rightarrow> bool" where
  "answers env h req =
     (case remote env h req of Reply st d \<Rightarrow> 200 \<le> st \<and> st < 300 | Fault msg \<Rightarrow> False)"

definition get_request :: "string \<Rightarrow> request" where
  "get_request e = \<lparr>http_method = ''GET'', url = e, params = JUndefined, body = Json JUndefined\<rparr>"

text \<open>The requests of \<open>validateConnection\<close>, in the order it would send them.\<close>

definition probe_requests :: "request list" where
  "probe_requests = map get_request endpoints @ [get_request ''/api'']"

text \<open>Whether an album of the list has the given name, compared as \<open>find_album\<close> does.\<close>

definition same_name :: "string \<Rightarrow> jsval \<Rightarrow> bool" where
  "same_name nm a = (case opt_prop a ''albumName'' of JStr n \<Rightarrow> toLowerCase n = toLowerCase nm | _ \<Rightarrow> False)"


section \<open>An example deployment\<close>

text \<open>
  A small remote service, used to run the statements below on concrete inputs. It
  holds the album \<^verbatim>\<open>Summer Trip\<close> and every album created by an earlier request,
  accepts every upload, attaches assets to the albums it holds, serves one album
  with two assets, knows the old server-info path only, serves random assets (none),
  and answers anything else
  with 404 and the body \<^verbatim>\<open>{"message": "not found"}\<close>.
\<close>

fun albums_created :: "nat \<Rightarrow> request list \<Rightarrow> jsval list" where
  "albums_created n [] = []"
| "albums_created n (r # rs) =
     (if http_method r = ''POST'' \<and> url r = ''/api/albums''
      then [JObj [(''id'', JStr (''album-'' @ show_nat n)),
                  (''albumName'', (case body r of Json d \<Rightarrow> opt_prop d ''albumName'' | Multipart f \<Rightarrow> JUndefined))]]
      else []) @ albums_created (Suc n) rs"

definition demo_albums :: "request list \<Rightarrow> jsval list" where
  "demo_albums h =
     JObj [(''id'', JStr ''album-s''), (''albumName'', JStr ''Summer Trip'')] # albums_created 0 h"

definition demo_remote :: "request list \<Rightarrow> request \<Rightarrow> reply" where
  "demo_remote h r =
     (if http_method r = ''POST'' \<and> url r = ''/api/assets''
        then Reply 201 (JObj [(''id'', JStr (''asset-'' @ show_nat (length h))), (''status'', JStr ''created'')])
      else if http_method r = ''GET'' \<and> url r = ''/api/albums''
        then Reply 200 (JArr (demo_albums h))
      else if http_method r = ''POST'' \<and> url r = ''/api/albums''
        then Reply 201 (JObj [(''id'', JStr (''album-'' @ show_nat (length h)))])
      else if http_method r = ''PUT'' \<and>
              url r \<in> set (map (\<lambda>a. ''/api/albums/'' @ to_string (opt_prop a ''id'') @ ''/assets'') (demo_albums h))
        then Reply 200 (JArr [])
      else if http_method r = ''GET'' \<and> url r = ''/api/albums/album-s''
        then Reply 200 (JObj [(''id'', JStr ''album-s''), (''albumName'', JStr ''Summer Trip''),
                              (''assets'', JArr [JObj [(''id'', JStr ''a'')], JObj [(''id'', JStr ''b'')]])])
      else if http_method r = ''GET'' \<and> url r = ''/api/server-info''
        then Reply 200 (JObj [(''version'', JStr ''1.0'')])
      else if http_method r = ''GET'' \<and> url r = ''/api/assets/random''
        then Reply 200 (JArr [])
      else Reply 404 (JObj [(''message'', JStr ''not found'')]))"

definition demo_stat :: "string \<Rightarrow> stats option" where
  "demo_stat p =
     (if p = ''/photos/a.jpg'' \<or> p = ''/photos/b.jpg'' \<or> p = ''/photos/c.jpg''
      then Some \<lparr>birthtime = ''2024-01-01T00:00:00.000Z'', mtime = ''2024-01-02T00:00:00.000Z''\<rparr>
      else None)"

definition demo_basename :: "string \<Rightarrow> string" where
  "demo_basename p = rev (takeWhile (\<lambda>c. c \<noteq> CHR ''/'') (rev p))"

definition demo_env :: env where
  "demo_env =
     \<lparr>cacheTtl = 300000, remote = demo_remote, latency = (\<lambda>h r. 5),
      resolve = (\<lambda>p. p), basename = demo_basename, stat = demo_stat\<rparr>"

text \<open>A deployment on which only the root path of the API answers.\<close>

definition root_only_env :: env where
  "root_only_env =
     demo_env\<lparr>remote := (\<lambda>h r. if url r = ''/api'' then Reply 200 (JStr ''ok'')
                             else Reply 404 (JObj [(''message'', JStr ''not found'')]))\<rparr>"

definition demo_world :: world where
  "demo_world = \<lparr>now = 1000, calls = [], cache = Map.empty\<rparr>"

text \<open>A deployment that cannot be reached.\<close>

definition offline_env :: env where
  "offline_env = demo_env\<lparr>remote := (\<lambda>h r. Fault ''Network Error'')\<rparr>"





section \<open>Facts about the example deployment\<close>

lemma demo_env_simps:
  "cacheTtl demo_env = 300000" "remote demo_env = demo_remote" "latency demo_env = (\<lambda>h r. 5)"
  "resolve demo_env = (\<lambda>p. p)" "basename demo_env = demo_basename" "stat demo_env = demo_stat"
  by (simp_all add: demo_env_def)

section \<open>The cache\<close>

text \<open>
  C2. For every key \<open>k\<close> and payload \<open>v\<close>: a lookup of \<open>k\<close> made at a time \<open>t\<close> after
  \<open>setCache k v\<close> (stored at time \<open>now w\<close>) returns \<open>v\<close> as long as \<open>t - now w\<close> is below the
  TTL; once the TTL has elapsed the lookup returns \<^verbatim>\<open>null\<close> (absent), with no other
  \<open>setCache\<close> in between, and the state it leaves has no entry for \<open>k\<close>.
\<close>

theorem C2_cache_get_after_set:
  "(t - now w < cacheTtl env \<longrightarrow>
      fst (getFromCache env k ((setCache k v w)\<lparr>now := t\<rparr>)) = v) \<and>
   (\<not> t - now w < cacheTtl env \<longrightarrow>
      fst (getFromCache env k ((setCache k v w)\<lparr>now := t\<rparr>)) = JNull \<and>
      cache (snd (getFromCache env k ((setCache k v w)\<lparr>now := t\<rparr>))) k = None)"
  by (simp add: getFromCache_def setCache_def isCacheValid_def)

theorem C2_cache_get_after_set_witness:
  "1500 - now demo_world < cacheTtl demo_env \<and>
   fst (getFromCache demo_env ''GET:/api/albums:{}''
          ((setCache ''GET:/api/albums:{}'' (JArr []) demo_world)\<lparr>now := 1500\<rparr>)) = JArr [] \<and>
   \<not> 400000 - now demo_world < cacheTtl demo_env \<and>
   fst (getFromCache demo_env ''GET:/api/albums:{}''
          ((setCache ''GET:/api/albums:{}'' (JArr []) demo_world)\<lparr>now := 400000\<rparr>)) = JNull \<and>
   cache (snd (getFromCache demo_env ''GET:/api/albums:{}''
          ((setCache ''GET:/api/albums:{}'' (JArr []) demo_world)\<lparr>now := 400000\<rparr>)))
      ''GET:/api/albums:{}'' = None"
  using C2_cache_get_after_set[of 1500 demo_world demo_env "''GET:/api/albums:{}''" "JArr []"]
    C2_cache_get_after_set[of 400000 demo_world demo_env "''GET:/api/albums:{}''" "JArr []"]
  by (simp add: demo_env_simps demo_world_def)

lemma get_cached:
  "cache w (cacheKey e ps) = Some c \<Longrightarrow> now w - timestamp c < cacheTtl env \<Longrightarrow> truthy (data c) \<Longrightarrow>
     get env e ps True w = (Inr (data c), w)"
  by (simp add: get_def getFromCache_def isCacheValid_def)

lemma get_uncached:
  "cache w (cacheKey e ps) = None \<Longrightarrow>
     calls (snd (get env e ps True w)) =
       calls w @ [\<lparr>http_method = ''GET'', url = e, params = ps, body = Json JUndefined\<rparr>]"
  by (simp add: get_def getFromCache_def client_request_def setCache_def Let_def split: reply.splits)

section \<open>The cache key\<close>

lemma assoc_list_eq:
  "map_of p = map_of q \<Longrightarrow> map fst p = map fst q \<Longrightarrow> distinct (map fst p) \<Longrightarrow> p = q"
proof (induction p arbitrary: q)
  case Nil
  then show ?case by simp
next
  case (Cons a p)
  then obtain b q' where q: "q = b # q'" by (cases q) auto
  obtain k v where a: "a = (k, v)" by (cases a)
  obtain k' v' where b: "b = (k', v')" by (cases b)
  from Cons.prems q a b have kk: "k' = k" by simp
  from Cons.prems(1) have "map_of (a # p) k = map_of q k" by (rule fun_cong)
  then have vv: "v' = v" using q a b kk by simp
  have notin: "k \<notin> fst ` set p" "k \<notin> fst ` set q'"
    using Cons.prems q a b kk by (auto simp flip: set_map)
  have "map_of p = map_of q'"
  proof
    fix x
    show "map_of p x = map_of q' x"
    proof (cases "x = k")
      case True
      then show ?thesis using notin by (simp add: map_of_eq_None_iff[THEN iffD2])
    next
      case False
      from Cons.prems(1) have "map_of (a # p) x = map_of q x" by (rule fun_cong)
      then show ?thesis using False q a b kk vv by simp
    qed
  qed
  then have "p = q'" using Cons.IH[of q'] Cons.prems q by simp
  then show ?case using q a b kk vv by simp
qed

text \<open>
  C6, as stated, fails: the parameter objects \<^verbatim>\<open>{a: 1, b: 2}\<close> and \<^verbatim>\<open>{b: 2, a: 1}\<close> are
  equal as key-value maps, yet the cache keys computed for them differ, because
  \<^verbatim>\<open>JSON.stringify\<close> writes the properties in their enumeration order.
\<close>

theorem C6_cache_key_order_counterexample:
  "map_of [(''a'', JNum 1), (''b'', JNum 2)] = map_of [(''b'', JNum 2), (''a'', JNum 1)] \<and>
   cacheKey ''/api/search/explore'' (JObj [(''a'', JNum 1), (''b'', JNum 2)]) \<noteq>
   cacheKey ''/api/search/explore'' (JObj [(''b'', JNum 2), (''a'', JNum 1)])"
  by (auto simp add: cacheKey_def js_or_def template_of_def quote_def escape_char_def show_int_def show_nat.simps)

lemma JSON_stringify_None: "(JSON_stringify v = None) = (v = JUndefined)"
  by (cases v) auto

lemma stringify_props_defined: "stringify_props (defined_props kvs) = stringify_props kvs"
proof (induction kvs)
  case Nil
  then show ?case by (simp add: defined_props_def)
next
  case (Cons kv kvs)
  obtain k v where kv: "kv = (k, v)" by (cases kv)
  show ?case
  proof (cases "v = JUndefined")
    case True
    with kv Cons show ?thesis by (simp add: defined_props_def)
  next
    case False
    then obtain t where "JSON_stringify v = Some t"
      using JSON_stringify_None[of v] by (cases "JSON_stringify v") auto
    with False kv Cons show ?thesis by (simp add: defined_props_def)
  qed
qed

lemma cacheKey_defined: "cacheKey e (JObj kvs) = cacheKey e (JObj (defined_props kvs))"
  by (simp add: cacheKey_def js_or_def stringify_props_defined)

text \<open>
  C6, amended. Take an endpoint and two query-parameter objects that are equal as
  key-value maps and list their (distinct) keys in the same order, properties whose
  value is \<^verbatim>\<open>undefined\<close> not counting, since \<^verbatim>\<open>JSON.stringify\<close> leaves them out. Then
  the cache key computed for the two GET requests is the same string, and the two
  requests meet on one cache entry: once a cached \<open>get\<close> with the first object has
  returned a truthy payload \<open>d\<close>, the state holds an entry with payload \<open>d\<close> under that
  key, and a cached \<open>get\<close> with the second object, made while the entry is younger than
  the TTL, returns \<open>d\<close> and leaves the state as it is, sending no request.
\<close>

theorem C6_cache_key_same_order:
  assumes "map_of (defined_props p) = map_of (defined_props q)"
    and "map fst (defined_props p) = map fst (defined_props q)"
    and "distinct (map fst (defined_props p))"
    and "get env e (JObj p) True w = (Inr d, w1)" and "truthy d"
  shows "cacheKey e (JObj p) = cacheKey e (JObj q) \<and>
         (\<exists>c. cache w1 (cacheKey e (JObj q)) = Some c \<and> data c = d \<and>
              (\<forall>t. t - timestamp c < cacheTtl env \<longrightarrow>
                   get env e (JObj q) True (w1\<lparr>now := t\<rparr>) = (Inr d, w1\<lparr>now := t\<rparr>)))"
proof -
  have "defined_props p = defined_props q" using assms(1-3) by (rule assoc_list_eq)
  then have key: "cacheKey e (JObj p) = cacheKey e (JObj q)"
    using cacheKey_defined[of e p] cacheKey_defined[of e q] by simp
  obtain c where c: "cache w1 (cacheKey e (JObj p)) = Some c" "data c = d"
    using assms(4)
    by (auto simp: get_def getFromCache_def setCache_def client_request_def Let_def
        split: option.splits if_splits prod.splits sum.splits reply.splits)
  have "\<forall>t. t - timestamp c < cacheTtl env \<longrightarrow>
          get env e (JObj q) True (w1\<lparr>now := t\<rparr>) = (Inr d, w1\<lparr>now := t\<rparr>)"
  proof (intro allI impI)
    fix t assume t: "t - timestamp c < cacheTtl env"
    have "get env e (JObj q) True (w1\<lparr>now := t\<rparr>) = (Inr (data c), w1\<lparr>now := t\<rparr>)"
      by (rule get_cached) (use c t assms(5) key in simp_all)
    then show "get env e (JObj q) True (w1\<lparr>now := t\<rparr>) = (Inr d, w1\<lparr>now := t\<rparr>)"
      using c by simp
  qed
  with c key show ?thesis by auto
qed

lemma demo_shared_list:
  "fst (get demo_env ''/api/albums'' (JObj [(''shared'', JBool False), (''assetId'', JUndefined)]) True demo_world) =
     Inr (JArr [JObj [(''id'', JStr ''album-s''), (''albumName'', JStr ''Summer Trip'')]])"
  by code_simp

lemma demo_shared_stamp:
  "map_option timestamp
     (cache (snd (get demo_env ''/api/albums'' (JObj [(''shared'', JBool False), (''assetId'', JUndefined)]) True demo_world))
            (cacheKey ''/api/albums'' (JObj [(''shared'', JBool False)]))) = Some 1005"
  by code_simp

theorem C6_cache_key_same_order_witness:
  "cacheKey ''/api/albums'' (JObj [(''shared'', JBool False), (''assetId'', JUndefined)]) =
     cacheKey ''/api/albums'' (JObj [(''shared'', JBool False)]) \<and>
   fst (get demo_env ''/api/albums'' (JObj [(''shared'', JBool False), (''assetId'', JUndefined)]) True demo_world) =
     Inr (JArr [JObj [(''id'', JStr ''album-s''), (''albumName'', JStr ''Summer Trip'')]]) \<and>
   get demo_env ''/api/albums'' (JObj [(''shared'', JBool False)]) True
     ((snd (get demo_env ''/api/albums'' (JObj [(''shared'', JBool False), (''assetId'', JUndefined)]) True
              demo_world))\<lparr>now := 2000\<rparr>) =
     (Inr (JArr [JObj [(''id'', JStr ''album-s''), (''albumName'', JStr ''Summer Trip'')]]),
      (snd (get demo_env ''/api/albums'' (JObj [(''shared'', JBool False), (''assetId'', JUndefined)]) True
              demo_world))\<lparr>now := 2000\<rparr>)"
proof -
  define d where "d = JArr [JObj [(''id'', JStr ''album-s''), (''albumName'', JStr ''Summer Trip'')]]"
  define w1 where "w1 = snd (get demo_env ''/api/albums''
      (JObj [(''shared'', JBool False), (''assetId'', JUndefined)]) True demo_world)"
  have h4: "get demo_env ''/api/albums'' (JObj [(''shared'', JBool False), (''assetId'', JUndefined)]) True
      demo_world = (Inr d, w1)"
    using demo_shared_list unfolding d_def w1_def
    by (cases "get demo_env ''/api/albums'' (JObj [(''shared'', JBool False), (''assetId'', JUndefined)]) True
          demo_world") simp
  have h5: "truthy d" by (simp add: d_def)
  have h1: "map_of (defined_props [(''shared'', JBool False), (''assetId'', JUndefined)]) =
      map_of (defined_props [(''shared'', JBool False)])" by (simp add: defined_props_def)
  have h2: "map fst (defined_props [(''shared'', JBool False), (''assetId'', JUndefined)]) =
      map fst (defined_props [(''shared'', JBool False)])" by (simp add: defined_props_def)
  have h3: "distinct (map fst (defined_props [(''shared'', JBool False), (''assetId'', JUndefined)]))"
    by (simp add: defined_props_def)
  note inst = C6_cache_key_same_order[OF h1 h2 h3 h4 h5]
  from inst have key: "cacheKey ''/api/albums'' (JObj [(''shared'', JBool False), (''assetId'', JUndefined)]) =
     cacheKey ''/api/albums'' (JObj [(''shared'', JBool False)])" by blast
  from inst obtain c where c: "cache w1 (cacheKey ''/api/albums'' (JObj [(''shared'', JBool False)])) = Some c"
    and t: "\<forall>t. t - timestamp c < cacheTtl demo_env \<longrightarrow>
       get demo_env ''/api/albums'' (JObj [(''shared'', JBool False)]) True (w1\<lparr>now := t\<rparr>) =
         (Inr d, w1\<lparr>now := t\<rparr>)"
    by blast
  have "timestamp c = 1005" using demo_shared_stamp c unfolding w1_def by simp
  then have "2000 - timestamp c < cacheTtl demo_env" by (simp add: demo_env_simps)
  with t have "get demo_env ''/api/albums'' (JObj [(''shared'', JBool False)]) True (w1\<lparr>now := 2000\<rparr>) =
         (Inr d, w1\<lparr>now := 2000\<rparr>)" by blast
  then show ?thesis using demo_shared_list key unfolding d_def w1_def by simp
qed

section \<open>Error normalization\<close>

lemma client_request_calls: "calls (snd (client_request env req w)) = calls w @ [req]"
  by (simp add: client_request_def Let_def split: reply.splits)

lemma client_request_answers: "isl (fst (client_request env req w)) = (\<not> answers env (calls w) req)"
  by (simp add: client_request_def answers_def Let_def split: reply.splits)

lemma get_nocache: "get env e ps False w =
    client_request env \<lparr>http_method = ''GET'', url = e, params = ps, body = Json JUndefined\<rparr> w"
  by (simp add: get_def split: prod.splits sum.splits)

text \<open>
  C7. A call of the HTTP instance whose reply is status 404 with the body
  \<^verbatim>\<open>{"message": "not found"}\<close> fails with the normalized error of message
  \<^verbatim>\<open>not found\<close> and status code 404. In general, for a reply outside 200..299 the
  message is the body's \<^verbatim>\<open>message\<close> when that is truthy and the HTTP library's own
  message otherwise, and the status code is the reply's; for a fault without a response
  the message is the library's and the status code 500. In every case the request
  has been sent exactly once: the log of calls grows by this one request.
\<close>

theorem C7_not_found_normalized:
  "(remote env (calls w) req = Reply 404 (JObj [(''message'', JStr ''not found'')]) \<longrightarrow>
      client_request env req w =
        (Inl (ApiError \<lparr>message = JStr ''not found'', statusCode = 404, error = JUndefined\<rparr>),
         w\<lparr>now := now w + latency env (calls w) req, calls := calls w @ [req]\<rparr>)) \<and>
   (\<forall>st d. remote env (calls w) req = Reply st d \<and> \<not> (200 \<le> st \<and> st < 300) \<longrightarrow>
      client_request env req w =
        (Inl (ApiError
           \<lparr>message = (if truthy (opt_prop d ''message'') then opt_prop d ''message''
                        else JStr (''Request failed with status code '' @ show_int st)),
            statusCode = (if st \<noteq> 0 then st else 500),
            error = opt_prop d ''error''\<rparr>),
         w\<lparr>now := now w + latency env (calls w) req, calls := calls w @ [req]\<rparr>)) \<and>
   (\<forall>msg. remote env (calls w) req = Fault msg \<longrightarrow>
      client_request env req w =
        (Inl (ApiError
           \<lparr>message = (if msg \<noteq> [] then JStr msg else JStr ''Unknown Immich API error''),
            statusCode = 500, error = JUndefined\<rparr>),
         w\<lparr>now := now w + latency env (calls w) req, calls := calls w @ [req]\<rparr>))"
  by (auto simp add: client_request_def Let_def js_or_def)

theorem C7_not_found_normalized_witness:
  "remote demo_env (calls demo_world) (get_request ''/api/assets/none'') =
      Reply 404 (JObj [(''message'', JStr ''not found'')]) \<and>
   client_request demo_env (get_request ''/api/assets/none'') demo_world =
      (Inl (ApiError \<lparr>message = JStr ''not found'', statusCode = 404, error = JUndefined\<rparr>),
       demo_world\<lparr>now := 1005, calls := [get_request ''/api/assets/none'']\<rparr>) \<and>
   remote offline_env (calls demo_world) (get_request ''/api/albums'') = Fault ''Network Error'' \<and>
   client_request offline_env (get_request ''/api/albums'') demo_world =
      (Inl (ApiError \<lparr>message = JStr ''Network Error'', statusCode = 500, error = JUndefined\<rparr>),
       demo_world\<lparr>now := 1005, calls := [get_request ''/api/albums'']\<rparr>)"
proof -
  have r1: "remote demo_env (calls demo_world) (get_request ''/api/assets/none'') =
      Reply 404 (JObj [(''message'', JStr ''not found'')])"
    by (simp add: demo_env_simps demo_remote_def get_request_def)
  have r2: "remote offline_env (calls demo_world) (get_request ''/api/albums'') = Fault ''Network Error''"
    by (simp add: offline_env_def)
  note t1 = C7_not_found_normalized[of demo_env demo_world "get_request ''/api/assets/none''"]
  note t2 = C7_not_found_normalized[of offline_env demo_world "get_request ''/api/albums''"]
  have a: "client_request demo_env (get_request ''/api/assets/none'') demo_world =
      (Inl (ApiError \<lparr>message = JStr ''not found'', statusCode = 404, error = JUndefined\<rparr>),
       demo_world\<lparr>now := 1005, calls := [get_request ''/api/assets/none'']\<rparr>)"
    using t1[THEN conjunct1, THEN mp, OF r1] by (simp add: demo_env_simps demo_world_def)
  have b: "client_request offline_env (get_request ''/api/albums'') demo_world =
      (Inl (ApiError \<lparr>message = JStr ''Network Error'', statusCode = 500, error = JUndefined\<rparr>),
       demo_world\<lparr>now := 1005, calls := [get_request ''/api/albums'']\<rparr>)"
    using t2[THEN conjunct2, THEN conjunct2, THEN spec, THEN mp, OF r2]
    by (simp add: offline_env_def demo_env_def demo_world_def)
  from r1 a r2 b show ?thesis by blast
qed

section \<open>Validating the connection\<close>

lemma probe_first:
  "k < length es \<Longrightarrow>
   answers env (calls w @ map get_request (take k es)) (get_request (es ! k)) \<Longrightarrow>
   (\<forall>j<k. \<not> answers env (calls w @ map get_request (take j es)) (get_request (es ! j))) \<Longrightarrow>
   fst (probe env es w) = True \<and>
   calls (snd (probe env es w)) = calls w @ map get_request (take (Suc k) es)"
proof (induction es arbitrary: k w)
  case Nil
  then show ?case by simp
next
  case (Cons e es)
  obtain r w' where r: "client_request env (get_request e) w = (r, w')"
    by (cases "client_request env (get_request e) w")
  have cw: "calls w' = calls w @ [get_request e]"
    using client_request_calls[of env "get_request e" w] r by simp
  have ans: "isl r = (\<not> answers env (calls w) (get_request e))"
    using client_request_answers[of env "get_request e" w] r by simp
  show ?case
  proof (cases k)
    case 0
    with Cons.prems ans obtain d where "r = Inr d" by (cases r) auto
    with r cw 0 show ?thesis by (simp add: get_nocache get_request_def[symmetric])
  next
    case (Suc k')
    with Cons.prems(3) have "\<not> answers env (calls w) (get_request e)" by fastforce
    with ans obtain err where err: "r = Inl err" by (cases r) auto
    have 1: "k' < length es" using Cons.prems Suc by simp
    have 2: "answers env (calls w' @ map get_request (take k' es)) (get_request (es ! k'))"
      using Cons.prems(2) Suc cw by simp
    have 3: "\<forall>j<k'. \<not> answers env (calls w' @ map get_request (take j es)) (get_request (es ! j))"
    proof (intro allI impI)
      fix j assume "j < k'"
      then have "Suc j < k" using Suc by simp
      with Cons.prems(3) have "\<not> answers env (calls w @ map get_request (take (Suc j) (e # es))) (get_request ((e # es) ! Suc j))"
        by blast
      then show "\<not> answers env (calls w' @ map get_request (take j es)) (get_request (es ! j))"
        using cw by simp
    qed
    from Cons.IH[OF 1 2 3] r err cw Suc show ?thesis
      by (simp add: get_nocache get_request_def[symmetric])
  qed
qed

lemma probe_none:
  "(\<forall>j<length es. \<not> answers env (calls w @ map get_request (take j es)) (get_request (es ! j))) \<Longrightarrow>
   fst (probe env es w) = False \<and> calls (snd (probe env es w)) = calls w @ map get_request es"
proof (induction es arbitrary: w)
  case Nil
  then show ?case by simp
next
  case (Cons e es)
  obtain r w' where r: "client_request env (get_request e) w = (r, w')"
    by (cases "client_request env (get_request e) w")
  have cw: "calls w' = calls w @ [get_request e]"
    using client_request_calls[of env "get_request e" w] r by simp
  have ans: "isl r = (\<not> answers env (calls w) (get_request e))"
    using client_request_answers[of env "get_request e" w] r by simp
  from Cons.prems have "\<not> answers env (calls w) (get_request e)" by fastforce
  with ans obtain err where err: "r = Inl err" by (cases r) auto
  have "\<forall>j<length es. \<not> answers env (calls w' @ map get_request (take j es)) (get_request (es ! j))"
  proof (intro allI impI)
    fix j assume "j < length es"
    then have "Suc j < length (e # es)" by simp
    with Cons.prems have "\<not> answers env (calls w @ map get_request (take (Suc j) (e # es))) (get_request ((e # es) ! Suc j))"
      by blast
    then show "\<not> answers env (calls w' @ map get_request (take j es)) (get_request (es ! j))"
      using cw by simp
  qed
  from Cons.IH[OF this] r err cw show ?case
    by (simp add: get_nocache get_request_def[symmetric])
qed


lemma length_probe_requests: "length probe_requests = 6"
  by (simp add: probe_requests_def endpoints_def)

lemma take_probe_requests:
  "k \<le> length endpoints \<Longrightarrow> take k probe_requests = map get_request (take k endpoints)"
  by (simp add: probe_requests_def take_map)

lemma nth_probe_requests:
  "k < length endpoints \<Longrightarrow> probe_requests ! k = get_request (endpoints ! k)"
  by (simp add: probe_requests_def nth_append)

lemma last_probe_request: "probe_requests ! length endpoints = get_request ''/api''"
  by (simp add: probe_requests_def nth_append)

text \<open>
  C8. \<open>validateConnection\<close> sends the requests of \<open>probe_requests\<close> (the five candidate
  endpoints in their fixed order, then the plain request to \<^verbatim>\<open>/api\<close>) one after the other.
  If the request at position \<open>k\<close> is the first that is answered without error, the
  result is \<open>True\<close> and exactly the first \<open>k + 1\<close> requests have been sent: later
  candidates are not probed. If none of the six is answered, the result is \<open>False\<close> and
  all six have been sent. In particular a deployment that answers only \<^verbatim>\<open>/api\<close> is
  reported as reachable.
\<close>

theorem C8_validateConnection:
  "(\<forall>k<length probe_requests.
      answers env (calls w @ take k probe_requests) (probe_requests ! k) \<and>
      (\<forall>j<k. \<not> answers env (calls w @ take j probe_requests) (probe_requests ! j)) \<longrightarrow>
      fst (validateConnection env w) = True \<and>
      calls (snd (validateConnection env w)) = calls w @ take (Suc k) probe_requests) \<and>
   ((\<forall>j<length probe_requests.
       \<not> answers env (calls w @ take j probe_requests) (probe_requests ! j)) \<longrightarrow>
      fst (validateConnection env w) = False \<and>
      calls (snd (validateConnection env w)) = calls w @ probe_requests)"
proof (intro conjI allI impI)
  fix k
  assume k: "k < length probe_requests"
  assume h: "answers env (calls w @ take k probe_requests) (probe_requests ! k) \<and>
      (\<forall>j<k. \<not> answers env (calls w @ take j probe_requests) (probe_requests ! j))"
  have goal: "fst (validateConnection env w) = True \<and>
      calls (snd (validateConnection env w)) = calls w @ take (Suc k) probe_requests"
  proof (cases "k < length endpoints")
    case True
    have a: "answers env (calls w @ map get_request (take k endpoints)) (get_request (endpoints ! k))"
      using h True by (simp add: take_probe_requests nth_probe_requests)
    have b: "\<forall>j<k. \<not> answers env (calls w @ map get_request (take j endpoints)) (get_request (endpoints ! j))"
      using h True by (simp add: take_probe_requests nth_probe_requests)
    from probe_first[OF True a b] True show ?thesis
      by (cases "probe env endpoints w") (simp add: validateConnection_def take_probe_requests)
  next
    case False
    then have kk: "k = length endpoints" using k by (simp add: length_probe_requests endpoints_def)
    have b: "\<forall>j<length endpoints. \<not> answers env (calls w @ map get_request (take j endpoints)) (get_request (endpoints ! j))"
      using h kk by (simp add: take_probe_requests nth_probe_requests)
    obtain w' where p: "probe env endpoints w = (False, w')"
      and cw: "calls w' = calls w @ map get_request endpoints"
      using probe_none[OF b] by (cases "probe env endpoints w") auto
    have "answers env (calls w') (get_request ''/api'')"
      using h kk cw by (simp add: take_probe_requests last_probe_request)
    then obtain d w'' where r: "client_request env (get_request ''/api'') w' = (Inr d, w'')"
      using client_request_answers[of env "get_request ''/api''" w']
      by (cases "client_request env (get_request ''/api'') w'"; cases "fst (client_request env (get_request ''/api'') w')") auto
    have "calls w'' = calls w' @ [get_request ''/api'']"
      using client_request_calls[of env "get_request ''/api''" w'] r by simp
    then show ?thesis using p r cw kk
      by (simp add: validateConnection_def get_request_def[symmetric] probe_requests_def)
  qed
  from goal show "fst (validateConnection env w) = True" by simp
  from goal show "calls (snd (validateConnection env w)) = calls w @ take (Suc k) probe_requests" by simp
next
  assume h: "\<forall>j<length probe_requests.
       \<not> answers env (calls w @ take j probe_requests) (probe_requests ! j)"
  have b: "\<forall>j<length endpoints. \<not> answers env (calls w @ map get_request (take j endpoints)) (get_request (endpoints ! j))"
  proof (intro allI impI)
    fix j assume j: "j < length endpoints"
    then have "j < length probe_requests" by (simp add: probe_requests_def)
    with h have "\<not> answers env (calls w @ take j probe_requests) (probe_requests ! j)" by blast
    then show "\<not> answers env (calls w @ map get_request (take j endpoints)) (get_request (endpoints ! j))"
      using j by (simp add: take_probe_requests nth_probe_requests)
  qed
  obtain w' where p: "probe env endpoints w = (False, w')"
    and cw: "calls w' = calls w @ map get_request endpoints"
    using probe_none[OF b] by (cases "probe env endpoints w") auto
  have "length endpoints < length probe_requests" by (simp add: probe_requests_def)
  with h have "\<not> answers env (calls w @ take (length endpoints) probe_requests) (probe_requests ! length endpoints)"
    by blast
  then have "\<not> answers env (calls w') (get_request ''/api'')"
    using cw by (simp add: take_probe_requests last_probe_request)
  then obtain err w'' where r: "client_request env (get_request ''/api'') w' = (Inl err, w'')"
    using client_request_answers[of env "get_request ''/api''" w']
    by (cases "client_request env (get_request ''/api'') w'"; cases "fst (client_request env (get_request ''/api'') w')") auto
  have c: "calls w'' = calls w' @ [get_request ''/api'']"
    using client_request_calls[of env "get_request ''/api''" w'] r by simp
  have goal: "fst (validateConnection env w) = False \<and>
      calls (snd (validateConnection env w)) = calls w @ probe_requests"
    using p r cw c by (simp add: validateConnection_def get_request_def[symmetric] probe_requests_def)
  from goal show "fst (validateConnection env w) = False" by simp
  from goal show "calls (snd (validateConnection env w)) = calls w @ probe_requests" by simp
qed

lemma demo_answers:
  "\<not> answers demo_env [] (get_request ''/api/users/me'')"
  "\<not> answers demo_env [get_request ''/api/users/me''] (get_request ''/api/server/info'')"
  "answers demo_env [get_request ''/api/users/me'', get_request ''/api/server/info'']
     (get_request ''/api/server-info'')"
  by (simp_all add: answers_def demo_env_simps demo_remote_def get_request_def)

lemma probe_requests_list:
  "probe_requests =
     [get_request ''/api/users/me'', get_request ''/api/server/info'', get_request ''/api/server-info'',
      get_request ''/api/server/version'', get_request ''/api/server-info/version'', get_request ''/api'']"
  by (simp add: probe_requests_def endpoints_def)

theorem C8_validateConnection_witness:
  "fst (validateConnection demo_env demo_world) = True \<and>
   calls (snd (validateConnection demo_env demo_world)) =
     [get_request ''/api/users/me'', get_request ''/api/server/info'', get_request ''/api/server-info''] \<and>
   fst (validateConnection root_only_env demo_world) = True \<and>
   calls (snd (validateConnection root_only_env demo_world)) = probe_requests \<and>
   fst (validateConnection offline_env demo_world) = False \<and>
   calls (snd (validateConnection offline_env demo_world)) = probe_requests"
proof -
  have k2: "(2::nat) < length probe_requests" by (simp add: probe_requests_list)
  have h2: "answers demo_env (calls demo_world @ take 2 probe_requests) (probe_requests ! 2) \<and>
      (\<forall>j<2. \<not> answers demo_env (calls demo_world @ take j probe_requests) (probe_requests ! j))"
    using demo_answers by (auto simp: probe_requests_list demo_world_def less_Suc_eq numeral_2_eq_2)
  have a: "fst (validateConnection demo_env demo_world) = True \<and>
      calls (snd (validateConnection demo_env demo_world)) = calls demo_world @ take (Suc 2) probe_requests"
    using C8_validateConnection[of demo_env demo_world, THEN conjunct1, THEN spec, THEN mp, OF k2, THEN mp, OF h2] .
  have k5: "(5::nat) < length probe_requests" by (simp add: probe_requests_list)
  have h5: "answers root_only_env (calls demo_world @ take 5 probe_requests) (probe_requests ! 5) \<and>
      (\<forall>j<5. \<not> answers root_only_env (calls demo_world @ take j probe_requests) (probe_requests ! j))"
    by (auto simp: probe_requests_list answers_def root_only_env_def get_request_def less_Suc_eq eval_nat_numeral)
  have b: "fst (validateConnection root_only_env demo_world) = True \<and>
      calls (snd (validateConnection root_only_env demo_world)) = calls demo_world @ take (Suc 5) probe_requests"
    using C8_validateConnection[of root_only_env demo_world, THEN conjunct1, THEN spec, THEN mp, OF k5, THEN mp, OF h5] .
  have h0: "\<forall>j<length probe_requests.
      \<not> answers offline_env (calls demo_world @ take j probe_requests) (probe_requests ! j)"
    by (simp add: answers_def offline_env_def)
  have c: "fst (validateConnection offline_env demo_world) = False \<and>
      calls (snd (validateConnection offline_env demo_world)) = calls demo_world @ probe_requests"
    using C8_validateConnection[of offline_env demo_world, THEN conjunct2, THEN mp, OF h0] .
  from a b c show ?thesis by (simp add: probe_requests_list demo_world_def)
qed

section \<open>The upload loop\<close>


























section \<open>The album of a batch\<close>

text \<open>Lowering reaches the accented capitals: \<^verbatim>\<open>U+00C9 T U+00C9\<close> has the name \<^verbatim>\<open>U+00E9 t U+00E9\<close>.\<close>

lemma toLowerCase_examples:
  "toLowerCase [CHR 0xC9, CHR ''T'', CHR 0xC9] = [CHR 0xE9, CHR ''t'', CHR 0xE9]"
  "toLowerCase [CHR 0xD7, CHR 0xDF, CHR 0xFF, CHR 0xDE, CHR 0xC0, CHR 0xD6, CHR 0xD8, CHR ''@'', CHR ''['']
     = [CHR 0xD7, CHR 0xDF, CHR 0xFF, CHR 0xFE, CHR 0xE0, CHR 0xF6, CHR 0xF8, CHR ''@'', CHR ''['']"
  "same_name [CHR 0xE9, CHR ''t'', CHR 0xE9]
     (JObj [(''id'', JStr ''x''), (''albumName'', JStr [CHR 0xC9, CHR ''T'', CHR 0xC9])])"
  by code_simp+











section \<open>Arguments that are not validated\<close>

text \<open>
  C5 fails on the code. The argument \<^verbatim>\<open>{count: 1000}\<close> violates the published shape of
  \<^verbatim>\<open>assets_get_random\<close> (\<^verbatim>\<open>count\<close> at most 100), and \<^verbatim>\<open>{isArchived: "yes"}\<close> that of
  \<^verbatim>\<open>assets_get_statistics\<close> (a boolean); neither call raises a validation error, and
  each sends its GET request with the invalid value.
\<close>

theorem C5_unvalidated_arguments:
  "\<not> conforms assets_get_random (JObj [(''count'', JNum 1000)]) \<and>
   fst (getRandomAssets demo_env (JObj [(''count'', JNum 1000)]) demo_world) = Inr (JArr []) \<and>
   calls (snd (getRandomAssets demo_env (JObj [(''count'', JNum 1000)]) demo_world)) =
     [\<lparr>http_method = ''GET'', url = ''/api/assets/random'',
       params = JObj [(''count'', JNum 1000)], body = Json JUndefined\<rparr>] \<and>
   \<not> conforms assets_get_statistics (JObj [(''isArchived'', JStr ''yes'')]) \<and>
   calls (snd (getAssetStatistics demo_env (JObj [(''isArchived'', JStr ''yes'')]) demo_world)) =
     [\<lparr>http_method = ''GET'', url = ''/api/assets/statistics'',
       params = JObj [(''isArchived'', JStr ''yes'')], body = Json JUndefined\<rparr>]"
  by code_simp

section \<open>Membership of assets in an album\<close>

lemma check_loop_spec:
  "check_loop ids qs res m n =
     (\<lambda>q. if q \<in> set qs \<and> q \<noteq> ''__proto__'' then Some (JStr q \<in> set ids) else res q,
      m + length (filter (\<lambda>q. JStr q \<in> set ids) qs),
      n + length (filter (\<lambda>q. JStr q \<notin> set ids) qs))"
proof (induction qs arbitrary: res m n)
  case Nil
  then show ?case by simp
next
  case (Cons q qs)
  show ?case by (auto simp: Cons.IH Let_def fun_eq_iff set_result_def)
qed

lemma strings_of_map: "strings_of (map JStr qs) = Some qs"
  by (induction qs) auto

text \<open>
  What \<open>checkAssetsInAlbum\<close> returns for a non-empty \<^verbatim>\<open>albumId\<close> and a non-empty list \<open>qs\<close>
  of queried ids, when the client's \<open>get\<close> yields \<open>album\<close> and \<open>ids\<close> are the ids of its
  assets: the counts are over the positions of \<open>qs\<close>, and the map holds every queried
  key but \<^verbatim>\<open>__proto__\<close>.
\<close>

lemma checkAssetsInAlbum_spec:
  assumes "map_of kvs ''albumId'' = Some (JStr aid)" and "aid \<noteq> []"
    and "map_of kvs ''assetIds'' = Some (JArr (map JStr qs))" and "qs \<noteq> []"
    and "get env (''/api/albums/'' @ aid) JUndefined True w = (Inr album, w1)"
    and "albumAssetIds album = Inr ids"
  shows "checkAssetsInAlbum env (JObj kvs) w =
     (Inr \<lparr>checked_albumId = aid,
            results = (\<lambda>q. if q \<in> set qs \<and> q \<noteq> ''__proto__'' then Some (JStr q \<in> set ids) else None),
            memberCount = length (filter (\<lambda>q. JStr q \<in> set ids) qs),
            nonMemberCount = length (filter (\<lambda>q. JStr q \<notin> set ids) qs)\<rparr>, w1)"
proof -
  have "aid \<noteq> [] \<Longrightarrow> Suc 0 \<le> length aid" by (cases aid) auto
  moreover have "qs \<noteq> [] \<Longrightarrow> Suc 0 \<le> length qs" by (cases qs) auto
  ultimately have "CheckAssetsInAlbumInputSchema_parse (JObj kvs) = Inr (aid, qs)"
    using assms(1-4) by (simp add: CheckAssetsInAlbumInputSchema_parse_def strings_of_map)
  then show ?thesis
    using assms(5,6) by (simp add: checkAssetsInAlbum_def check_loop_spec)
qed

lemma demo_get_album:
  "fst (get demo_env ''/api/albums/album-s'' JUndefined True demo_world) =
     Inr (JObj [(''id'', JStr ''album-s''), (''albumName'', JStr ''Summer Trip''),
                (''assets'', JArr [JObj [(''id'', JStr ''a'')], JObj [(''id'', JStr ''b'')]])])"
  by (simp add: get_def getFromCache_def client_request_def demo_env_simps demo_remote_def
      demo_world_def Let_def demo_albums_def)

lemma demo_check:
  assumes "qs \<noteq> []"
  shows "fst (checkAssetsInAlbum demo_env
           (JObj [(''albumId'', JStr ''album-s''), (''assetIds'', JArr (map JStr qs))]) demo_world) =
     Inr \<lparr>checked_albumId = ''album-s'',
           results = (\<lambda>q. if q \<in> set qs \<and> q \<noteq> ''__proto__''
                          then Some (JStr q \<in> set [JStr ''a'', JStr ''b'']) else None),
           memberCount = length (filter (\<lambda>q. JStr q \<in> set [JStr ''a'', JStr ''b'']) qs),
           nonMemberCount = length (filter (\<lambda>q. JStr q \<notin> set [JStr ''a'', JStr ''b'']) qs)\<rparr>"
proof -
  define album where "album =
     JObj [(''id'', JStr ''album-s''), (''albumName'', JStr ''Summer Trip''),
           (''assets'', JArr [JObj [(''id'', JStr ''a'')], JObj [(''id'', JStr ''b'')]])]"
  define w1 where "w1 = snd (get demo_env ''/api/albums/album-s'' JUndefined True demo_world)"
  have h1: "map_of [(''albumId'', JStr ''album-s''), (''assetIds'', JArr (map JStr qs))] ''albumId''
      = Some (JStr ''album-s'')" by simp
  have h2: "''album-s'' \<noteq> []" by simp
  have h3: "map_of [(''albumId'', JStr ''album-s''), (''assetIds'', JArr (map JStr qs))] ''assetIds''
      = Some (JArr (map JStr qs))" by simp
  have h5: "get demo_env (''/api/albums/'' @ ''album-s'') JUndefined True demo_world = (Inr album, w1)"
    using demo_get_album unfolding album_def w1_def
    by (cases "get demo_env ''/api/albums/album-s'' JUndefined True demo_world") simp
  have h6: "albumAssetIds album = Inr [JStr ''a'', JStr ''b'']"
    by (simp add: albumAssetIds_def album_def)
  show ?thesis
    using checkAssetsInAlbum_spec[OF h1 h2 h3 assms h5 h6] by simp
qed

text \<open>The example of the specification: album assets \<^verbatim>\<open>a\<close>, \<^verbatim>\<open>b\<close>, queried \<^verbatim>\<open>a\<close>, \<^verbatim>\<open>c\<close>.\<close>

lemma checkAssetsInAlbum_example:
  "fst (checkAssetsInAlbum demo_env
          (JObj [(''albumId'', JStr ''album-s''), (''assetIds'', JArr [JStr ''a'', JStr ''c''])])
          demo_world) =
     Inr \<lparr>checked_albumId = ''album-s'',
           results = [''a'' \<mapsto> True, ''c'' \<mapsto> False],
           memberCount = 1, nonMemberCount = 1\<rparr>"
proof -
  have m: "(\<lambda>q. if q \<in> set [''a'', ''c''] \<and> q \<noteq> ''__proto__''
                 then Some (JStr q \<in> set [JStr ''a'', JStr ''b'']) else None)
      = [''a'' \<mapsto> True, ''c'' \<mapsto> False]"
    by (auto simp: fun_eq_iff)
  show ?thesis
    using demo_check[of "[''a'', ''c'']"] m by simp
qed

text \<open>
  C9 fails on the code. For the queried ids \<^verbatim>\<open>__proto__\<close>, \<^verbatim>\<open>a\<close> and the album with the
  assets \<^verbatim>\<open>a\<close>, \<^verbatim>\<open>b\<close>, the id \<^verbatim>\<open>__proto__\<close> is not in the album and is counted in
  \<open>nonMemberCount\<close>, but the results map returned has the single entry for \<^verbatim>\<open>a\<close>: the
  queried id \<^verbatim>\<open>__proto__\<close> is assigned neither true nor false.
\<close>

theorem C9_proto_key_not_stored:
  "fst (checkAssetsInAlbum demo_env
          (JObj [(''albumId'', JStr ''album-s''), (''assetIds'', JArr [JStr ''__proto__'', JStr ''a''])])
          demo_world) =
     Inr \<lparr>checked_albumId = ''album-s'',
           results = [''a'' \<mapsto> True],
           memberCount = 1, nonMemberCount = 1\<rparr>"
proof -
  have m: "(\<lambda>q. if q \<in> set [''__proto__'', ''a''] \<and> q \<noteq> ''__proto__''
                 then Some (JStr q \<in> set [JStr ''a'', JStr ''b'']) else None)
      = [''a'' \<mapsto> True]"
    by (auto simp: fun_eq_iff)
  show ?thesis
    using demo_check[of "[''__proto__'', ''a'']"] m by simp
qed

end
